theory Spec2Isabelle
  imports Complex_Main "HOL-Library.Multiset"
begin

section \<open>The cube-file processor: data model\<close>

text \<open>
  The program \<^verbatim>\<open>cube_processor.py\<close> reads a Gaussian cube file into a \<^verbatim>\<open>CubeFile\<close>
  object and answers queries on its data array. Python's \<^verbatim>\<open>float\<close> is modelled by
  \<^typ>\<open>real\<close>: finite values with exact arithmetic. Rounding, infinities and NaN are outside
  this development. Python's \<^verbatim>\<open>int\<close> is \<^typ>\<open>int\<close>.

  Every exception the program can raise is a value of \<open>error\<close>. An \<^verbatim>\<open>assert\<close> without a
  message is \<open>AssertionError []\<close>. The constructor \<open>NonFinite\<close> is no Python
  exception: it marks an input with an \<^verbatim>\<open>inf\<close> or \<^verbatim>\<open>nan\<close> literal, which Python
  accepts and which has no value in \<^typ>\<open>real\<close>.
\<close>

datatype error = AssertionError string | ValueError | IndexError | NonFinite

type_synonym vec3 = "real \<times> real \<times> real"

record Atom =
  atomic_number :: int
  nuclear_charge :: real
  position :: vec3

record CubeFile =
  comment1 :: string
  comment2 :: string
  origin :: vec3
  data_points_per_grid_point :: int
  x_grid_points :: int
  x_axis :: vec3
  y_grid_points :: int
  y_axis :: vec3
  z_grid_points :: int
  z_axis :: vec3
  atoms :: "Atom list"
  data :: "real list"

section \<open>The analyzer\<close>

text \<open>\<^verbatim>\<open>np.min\<close> and \<^verbatim>\<open>np.max\<close> raise \<^verbatim>\<open>ValueError\<close> on an array of size zero.\<close>

definition np_min :: "real list \<Rightarrow> error + real" where
  "np_min xs = (case xs of [] \<Rightarrow> Inl ValueError | x # r \<Rightarrow> Inr (fold min r x))"

definition np_max :: "real list \<Rightarrow> error + real" where
  "np_max xs = (case xs of [] \<Rightarrow> Inl ValueError | x # r \<Rightarrow> Inr (fold max r x))"

definition min_value :: "CubeFile \<Rightarrow> error + real" where
  "min_value c = np_min (data c)"

definition abs_min_value :: "CubeFile \<Rightarrow> error + real" where
  "abs_min_value c = np_min (map abs (data c))"

definition max_value :: "CubeFile \<Rightarrow> error + real" where
  "max_value c = np_max (data c)"

definition abs_max_value :: "CubeFile \<Rightarrow> error + real" where
  "abs_max_value c = np_max (map abs (data c))"

definition summed_data :: "CubeFile \<Rightarrow> real" where
  "summed_data c = sum_list (data c)"

text \<open>The body of \<^verbatim>\<open>abs_summed_data\<close> is \<^verbatim>\<open>np.sum(self.data)\<close>, as that of
  \<^verbatim>\<open>summed_data\<close>.\<close>

definition abs_summed_data :: "CubeFile \<Rightarrow> real" where
  "abs_summed_data c = sum_list (data c)"

definition norm3 :: "vec3 \<Rightarrow> real" where
  "norm3 v = (case v of (a, b, c) \<Rightarrow> sqrt (a * a + b * b + c * c))"

definition volume :: "CubeFile \<Rightarrow> real" where
  "volume c = norm3 (x_axis c) * norm3 (y_axis c) * norm3 (z_axis c)"

definition integrate :: "CubeFile \<Rightarrow> real" where
  "integrate c = summed_data c * volume c"

text \<open>
  \<^verbatim>\<open>np.argsort\<close> returns the indices that sort the array in ascending order. The order it
  gives to equal values is not fixed by numpy's default sort; the model takes the stable
  one. The function below only reads the values at these indices.
\<close>

definition argsort :: "real list \<Rightarrow> nat list" where
  "argsort d = sort_key (\<lambda>i. d ! i) [0..<length d]"

text \<open>
  The loop \<^verbatim>\<open>for i in reversed(sorted_indices)\<close>: \<open>cur\<close> is \<^verbatim>\<open>current_sum\<close> before
  the step; \<open>None\<close> means that the loop ended without returning.
\<close>

fun threshold_loop :: "real list \<Rightarrow> nat list \<Rightarrow> real \<Rightarrow> real \<Rightarrow> real option" where
  "threshold_loop d [] cur target_sum = None"
| "threshold_loop d (i # idx) cur target_sum =
     (let cur' = cur + d ! i
      in if cur' \<ge> target_sum then Some (d ! i)
         else threshold_loop d idx cur' target_sum)"

text \<open>
  After the loop the code reads \<^verbatim>\<open>self.data[sorted_indices[-1]]\<close>, which raises
  \<^verbatim>\<open>IndexError\<close> when the array is empty.
\<close>

definition isosurface_threshold_value :: "CubeFile \<Rightarrow> real \<Rightarrow> error + real" where
  "isosurface_threshold_value c coverage_percent =
     (if coverage_percent \<ge> 100 then Inr 0
      else
        let sorted_indices = argsort (data c);
            target_sum = summed_data c * coverage_percent / 100
        in case threshold_loop (data c) (rev sorted_indices) 0 target_sum of
             Some v \<Rightarrow> Inr v
           | None \<Rightarrow>
               (if sorted_indices = [] then Inl IndexError
                else Inr (data c ! last sorted_indices)))"

section \<open>The parser\<close>

text \<open>
  The input of \<open>load_from\<close> is the text of the file, as Python's text mode delivers it
  (line ends already translated to the line feed). Characters are bytes; the white space
  and digits of Python and C that lie outside ASCII are not modelled.
\<close>

subsection \<open>Sequencing of steps that may raise\<close>

definition and_then :: "error + 'a \<Rightarrow> ('a \<Rightarrow> error + 'b) \<Rightarrow> error + 'b" where
  "and_then m f = (case m of Inl e \<Rightarrow> Inl e | Inr x \<Rightarrow> f x)"

definition py_assert :: "bool \<Rightarrow> string \<Rightarrow> error + unit" where
  "py_assert b msg = (if b then Inr () else Inl (AssertionError msg))"

subsection \<open>Characters\<close>

text \<open>\<^verbatim>\<open>str.split()\<close> splits at the characters 9 to 13 and 28 to 32; C's \<^verbatim>\<open>isspace\<close>, which
  numpy uses, knows 9 to 13 and 32.\<close>

definition py_isspace :: "char \<Rightarrow> bool" where
  "py_isspace c = (let n = (of_char c :: nat) in (9 \<le> n \<and> n \<le> 13) \<or> (28 \<le> n \<and> n \<le> 32))"

definition c_isspace :: "char \<Rightarrow> bool" where
  "c_isspace c = (let n = (of_char c :: nat) in (9 \<le> n \<and> n \<le> 13) \<or> n = 32)"

definition is_digit :: "char \<Rightarrow> bool" where
  "is_digit c = (let n = (of_char c :: nat) in 48 \<le> n \<and> n \<le> 57)"

definition digits_val :: "string \<Rightarrow> nat" where
  "digits_val ds = foldl (\<lambda>a c. 10 * a + (of_char c - 48)) 0 ds"

definition to_lower :: "char \<Rightarrow> char" where
  "to_lower c = (let n = (of_char c :: nat) in if 65 \<le> n \<and> n \<le> 90 then char_of (n + 32) else c)"

definition is_exp_mark :: "char \<Rightarrow> bool" where
  "is_exp_mark c = (c = CHR ''e'' \<or> c = CHR ''E'')"

subsection \<open>Lines and fields\<close>

text \<open>\<^verbatim>\<open>readline()\<close> returns the text up to and including the next line feed, or what is
  left of the text, and the empty string at the end of the file.\<close>

fun readline :: "string \<Rightarrow> string \<times> string" where
  "readline [] = ([], [])"
| "readline (c # s) =
     (if c = CHR 0x0A then ([c], s) else (case readline s of (l, r) \<Rightarrow> (c # l, r)))"

text \<open>\<^verbatim>\<open>str.split()\<close>: the maximal runs of characters that are not white space; \<open>tok\<close>
  is the run being read.\<close>

fun split_from :: "string \<Rightarrow> string \<Rightarrow> string list" where
  "split_from tok [] = (if tok = [] then [] else [tok])"
| "split_from tok (c # s) =
     (if py_isspace c then (if tok = [] then split_from [] s else tok # split_from [] s)
      else split_from (tok @ [c]) s)"

definition py_split :: "string \<Rightarrow> string list" where
  "py_split s = split_from [] s"

subsection \<open>Python's \<^verbatim>\<open>int()\<close> and \<^verbatim>\<open>float()\<close> on a field\<close>

text \<open>
  Both raise \<^verbatim>\<open>ValueError\<close> on a string that is no literal. A group of digits is
  \<^verbatim>\<open>digit (["_"] digit)*\<close>; \<open>digitpart\<close> returns its digits.
\<close>

fun digitpart :: "string \<Rightarrow> string option" where
  "digitpart [] = None"
| "digitpart [c] = (if is_digit c then Some [c] else None)"
| "digitpart (c # d # s) =
     (if \<not> is_digit c then None
      else if d = CHR ''_'' then map_option ((#) c) (digitpart s)
      else map_option ((#) c) (digitpart (d # s)))"

definition split_sign :: "string \<Rightarrow> bool \<times> string" where
  "split_sign s =
     (case s of [] \<Rightarrow> (False, [])
      | c # r \<Rightarrow> if c = CHR ''-'' then (True, r) else if c = CHR ''+'' then (False, r) else (False, s))"

definition py_int :: "string \<Rightarrow> error + int" where
  "py_int s =
     (case split_sign s of (neg, body) \<Rightarrow>
        (case digitpart body of
           None \<Rightarrow> Inl ValueError
         | Some ds \<Rightarrow> Inr (if neg then - int (digits_val ds) else int (digits_val ds))))"

definition scale10 :: "real \<Rightarrow> int \<Rightarrow> real" where
  "scale10 m e = (if 0 \<le> e then m * 10 ^ nat e else m / 10 ^ nat (- e))"

text \<open>The mantissa \<^verbatim>\<open>[digitpart] "." digitpart | digitpart ["."]\<close> and the exponent
  \<^verbatim>\<open>("e" | "E") [sign] digitpart\<close> of a float literal.\<close>

definition py_number :: "string \<Rightarrow> real option" where
  "py_number m =
     (let ip = takeWhile (\<lambda>c. c \<noteq> CHR ''.'') m; r = dropWhile (\<lambda>c. c \<noteq> CHR ''.'') m
      in if r = [] then map_option (\<lambda>ds. real (digits_val ds)) (digitpart ip)
         else let fp = tl r in
           if ip = [] \<and> fp = [] then None
           else (case (if ip = [] then Some [] else digitpart ip,
                       if fp = [] then Some [] else digitpart fp) of
                   (Some ids, Some fds) \<Rightarrow>
                     Some (real (digits_val ids) + real (digits_val fds) / 10 ^ length fds)
                 | _ \<Rightarrow> None))"

definition py_exponent :: "string \<Rightarrow> int option" where
  "py_exponent r =
     (if r = [] then Some 0
      else (case split_sign (tl r) of (neg, body) \<Rightarrow>
              map_option (\<lambda>ds. if neg then - int (digits_val ds) else int (digits_val ds))
                (digitpart body)))"

text \<open>\<^verbatim>\<open>float()\<close> also accepts \<^verbatim>\<open>inf\<close>, \<^verbatim>\<open>infinity\<close> and \<^verbatim>\<open>nan\<close> in any case, with a
  sign: these are the inputs marked \<open>NonFinite\<close>.\<close>

definition py_float :: "string \<Rightarrow> error + real" where
  "py_float s =
     (case split_sign s of (neg, body) \<Rightarrow>
        if map to_lower body \<in> {''inf'', ''infinity'', ''nan''} then Inl NonFinite
        else
          (case (py_number (takeWhile (\<lambda>c. \<not> is_exp_mark c) body),
                 py_exponent (dropWhile (\<lambda>c. \<not> is_exp_mark c) body)) of
             (Some m, Some e) \<Rightarrow> Inr (scale10 (if neg then - m else m) e)
           | _ \<Rightarrow> Inl ValueError))"

subsection \<open>numpy's \<^verbatim>\<open>fromstring\<close> in text mode\<close>

text \<open>
  \<^verbatim>\<open>np.fromstring(text, dtype=float, sep=' ')\<close> is numpy's \<^verbatim>\<open>array_from_text\<close> (numpy
  1.18 and later): it reads a number with \<^verbatim>\<open>NumPyOS_ascii_strtod\<close>, then skips the
  separator, and repeats. It ends at the end of the text, and also where no number or
  no separator is found: there numpy gives a \<^verbatim>\<open>DeprecationWarning\<close> ("string or file
  could not be read to its end due to unmatched data") and returns the values read so
  far. No exception is raised.

  \<open>strtod\<close> is the conversion of the longest numeric prefix, as C's \<^verbatim>\<open>strtod\<close> does it:
  \<open>Got v r\<close> is the value and the text after the number.
\<close>

datatype scan = Got real string | NoNumber | NonFiniteLiteral

definition starts_with_ci :: "string \<Rightarrow> string \<Rightarrow> bool" where
  "starts_with_ci w s = (map to_lower (take (length w) s) = w)"

definition strtod_exponent :: "string \<Rightarrow> int \<times> string" where
  "strtod_exponent r =
     (case r of [] \<Rightarrow> (0, r)
      | c # q \<Rightarrow>
          if \<not> is_exp_mark c then (0, r)
          else (case split_sign q of (neg, body) \<Rightarrow>
                  let ds = takeWhile is_digit body in
                  if ds = [] then (0, r)
                  else (if neg then - int (digits_val ds) else int (digits_val ds),
                        dropWhile is_digit body)))"

definition strtod :: "string \<Rightarrow> scan" where
  "strtod s =
     (case split_sign s of (neg, p) \<Rightarrow>
        if starts_with_ci ''nan'' p \<or> starts_with_ci ''inf'' p then NonFiniteLiteral
        else
          let ip = takeWhile is_digit p; r1 = dropWhile is_digit p;
              dot = (r1 \<noteq> [] \<and> hd r1 = CHR ''.'');
              fp = (if dot then takeWhile is_digit (tl r1) else []);
              r2 = (if dot then dropWhile is_digit (tl r1) else r1)
          in if ip = [] \<and> fp = [] then NoNumber
             else (case strtod_exponent r2 of (e, r3) \<Rightarrow>
                     let m = real (digits_val ip) + real (digits_val fp) / 10 ^ length fp
                     in Got (scale10 (if neg then - m else m) e) r3))"

text \<open>
  \<^verbatim>\<open>fromstr_next_element\<close>: \<^verbatim>\<open>NumPyOS_ascii_strtod\<close> skips white space before the number.
  numpy counts a value as read when the end pointer has moved. Where no number follows
  the skipped white space, the conversion has returned \<^verbatim>\<open>-1.0\<close> with the end pointer
  at the end of the white space, so this value is stored.
\<close>

definition fromstr_next_element :: "string \<Rightarrow> scan" where
  "fromstr_next_element s =
     (let s' = dropWhile c_isspace s
      in case strtod s' of
           NoNumber \<Rightarrow> if s' = s then NoNumber else Got (- 1) s'
         | r \<Rightarrow> r)"

text \<open>\<^verbatim>\<open>fromstr_skip_separator\<close> for the separator \<^verbatim>\<open>' '\<close>: all white space is skipped;
  \<open>None\<close> when the text has ended or when there was no white space to skip.\<close>

definition fromstr_skip_separator :: "string \<Rightarrow> string option" where
  "fromstr_skip_separator s =
     (let s' = dropWhile c_isspace s
      in if s' = [] \<or> s' = s then None else Some s')"

text \<open>The loop of \<^verbatim>\<open>array_from_text\<close> consumes at least one character in each round.\<close>

lemma split_sign_length: "split_sign s = (neg, p) \<Longrightarrow> length p \<le> length s"
  by (auto simp: split_sign_def split: list.splits if_splits)

lemma strtod_exponent_length: "strtod_exponent r = (e, r') \<Longrightarrow> length r' \<le> length r"
proof (cases r)
  case Nil
  assume "strtod_exponent r = (e, r')"
  then show ?thesis using Nil by (simp add: strtod_exponent_def)
next
  case (Cons c q)
  assume a: "strtod_exponent r = (e, r')"
  obtain neg body where sb: "split_sign q = (neg, body)" by (cases "split_sign q")
  have "length (dropWhile is_digit body) \<le> length q"
    using split_sign_length[OF sb] length_dropWhile_le[of is_digit body] by linarith
  then show ?thesis
    using a Cons sb by (auto simp: strtod_exponent_def Let_def split: if_splits)
qed

lemma strtod_length: "strtod s = Got v r \<Longrightarrow> length r < length s"
proof -
  assume a: "strtod s = Got v r"
  obtain neg p where sp: "split_sign s = (neg, p)" by (cases "split_sign s")
  let ?ip = "takeWhile is_digit p" and ?r1 = "dropWhile is_digit p"
  let ?dot = "?r1 \<noteq> [] \<and> hd ?r1 = CHR ''.''"
  let ?fp = "if ?dot then takeWhile is_digit (tl ?r1) else []"
  let ?r2 = "if ?dot then dropWhile is_digit (tl ?r1) else ?r1"
  have some: "\<not> (?ip = [] \<and> ?fp = [])"
    using a sp by (auto simp: strtod_def Let_def split: if_splits)
  obtain e r3 where ex: "strtod_exponent ?r2 = (e, r3)" by (cases "strtod_exponent ?r2")
  have r: "r = r3"
    using a sp ex some by (auto simp: strtod_def Let_def split: if_splits)
  have l1: "length ?ip + length ?r1 = length p"
    by (metis length_append takeWhile_dropWhile_id)
  have "length ?r2 < length p"
  proof (cases ?dot)
    case True
    then have "length ?fp + length ?r2 = length (tl ?r1)"
      by (simp add: length_append [symmetric] del: length_append length_tl)
    moreover have "length (tl ?r1) < length ?r1" using True by (cases ?r1) auto
    ultimately show ?thesis using l1 by linarith
  next
    case False
    have r2: "?r2 = ?r1" by (simp only: False if_False)
    have "?fp = []" by (simp only: False if_False)
    then have "?ip \<noteq> []" using some by blast
    then have "0 < length ?ip" by simp
    then have "length ?r1 < length p" using l1 by linarith
    then show ?thesis by (simp only: r2)
  qed
  then have "length r3 < length s"
    using strtod_exponent_length[OF ex] split_sign_length[OF sp] by linarith
  then show ?thesis by (simp only: r)
qed

lemma fromstr_next_element_length:
  "fromstr_next_element s = Got v r \<Longrightarrow> length r < length s"
proof -
  assume a: "fromstr_next_element s = Got v r"
  let ?s' = "dropWhile c_isspace s"
  have le: "length ?s' \<le> length s" by (rule length_dropWhile_le)
  show ?thesis
  proof (cases "strtod ?s'")
    case (Got w q)
    then have "r = q" using a by (simp add: fromstr_next_element_def Let_def)
    moreover have "length q < length s" using strtod_length[OF Got] le by linarith
    ultimately show ?thesis by simp
  next
    case NoNumber
    then have ne: "?s' \<noteq> s" and r: "r = ?s'"
      using a by (auto simp: fromstr_next_element_def Let_def split: if_splits)
    have "length ?s' \<noteq> length s"
    proof
      assume "length ?s' = length s"
      then have "takeWhile c_isspace s = []"
        by (metis add_cancel_left_left length_0_conv length_append takeWhile_dropWhile_id)
      then show False using ne by (metis append_Nil takeWhile_dropWhile_id)
    qed
    then have "length ?s' < length s" using le by linarith
    then show ?thesis by (simp only: r)
  next
    case NonFiniteLiteral
    then show ?thesis using a by (simp add: fromstr_next_element_def Let_def)
  qed
qed

lemma fromstr_skip_separator_length:
  "fromstr_skip_separator s = Some r \<Longrightarrow> length r \<le> length s"
  by (auto simp: fromstr_skip_separator_def Let_def length_dropWhile_le split: if_splits)

function array_from_text :: "string \<Rightarrow> error + real list" where
  "array_from_text s =
     (case fromstr_next_element s of
        NoNumber \<Rightarrow> Inr []
      | NonFiniteLiteral \<Rightarrow> Inl NonFinite
      | Got v r \<Rightarrow>
          (case fromstr_skip_separator r of
             None \<Rightarrow> Inr [v]
           | Some r' \<Rightarrow>
               (case array_from_text r' of Inl e \<Rightarrow> Inl e | Inr vs \<Rightarrow> Inr (v # vs))))"
  by pat_completeness auto
termination
proof (relation "measure length")
  show "wf (measure length)" by simp
next
  fix s v r r'
  assume "fromstr_next_element s = Got v r" "fromstr_skip_separator r = Some r'"
  then show "(r', s) \<in> measure length"
    using fromstr_next_element_length fromstr_skip_separator_length
    by (metis in_measure order_le_less_trans)
qed

declare array_from_text.simps [simp del]

definition np_fromstring :: "string \<Rightarrow> error + real list" where
  "np_fromstring s = array_from_text s"

subsection \<open>\<^verbatim>\<open>CubeFile.load_from\<close>\<close>

text \<open>The three assignments \<^verbatim>\<open>v[i] = float(parts[i + 1])\<close>, in this order.\<close>

definition floats3 :: "string list \<Rightarrow> error + vec3" where
  "floats3 parts =
     and_then (py_float (parts ! 1)) (\<lambda>a.
     and_then (py_float (parts ! 2)) (\<lambda>b.
     and_then (py_float (parts ! 3)) (\<lambda>c.
       Inr (a, b, c))))"

text \<open>One axis line: \<^verbatim>\<open>assert len(parts) == 4\<close>, then \<^verbatim>\<open>int(parts[0])\<close>, then the vector.\<close>

definition read_axis :: "string \<Rightarrow> error + ((int \<times> vec3) \<times> string)" where
  "read_axis inp =
     (case readline inp of (line, rest) \<Rightarrow>
        let parts = py_split line in
        and_then (py_assert (length parts = 4) []) (\<lambda>_.
        and_then (py_int (parts ! 0)) (\<lambda>n.
        and_then (floats3 parts) (\<lambda>v.
          Inr ((n, v), rest)))))"

text \<open>The loop \<^verbatim>\<open>for i in range(nAtoms)\<close>.\<close>

fun read_atoms :: "nat \<Rightarrow> string \<Rightarrow> error + (Atom list \<times> string)" where
  "read_atoms 0 inp = Inr ([], inp)"
| "read_atoms (Suc n) inp =
     (case readline inp of (line, rest) \<Rightarrow>
        let parts = py_split line in
        and_then (py_assert (length parts = 5) []) (\<lambda>_.
        and_then (py_int (parts ! 0)) (\<lambda>z.
        and_then (py_float (parts ! 1)) (\<lambda>q.
        and_then (py_float (parts ! 2)) (\<lambda>px.
        and_then (py_float (parts ! 3)) (\<lambda>py.
        and_then (py_float (parts ! 4)) (\<lambda>pz.
        and_then (read_atoms n rest) (\<lambda>(as, rest').
          Inr (\<lparr>atomic_number = z, nuclear_charge = q, position = (px, py, pz)\<rparr> # as,
               rest')))))))))"

text \<open>
  Lines 27 to 75 of the source: the two comment lines, the grid-definition line, the
  three axis lines and the atoms. The result is the object before its data is read
  (the field \<open>data\<close> is not yet set, written \<open>[]\<close>) and the rest of the text.
\<close>

definition load_header :: "string \<Rightarrow> error + (CubeFile \<times> string)" where
  "load_header inp =
     (case readline inp of (c1, r1) \<Rightarrow>
      case readline r1 of (c2, r2) \<Rightarrow>
      case readline r2 of (line, r3) \<Rightarrow>
        let parts = py_split line in
        and_then (py_assert (length parts = 4 \<or> length parts = 5) []) (\<lambda>_.
        and_then (py_int (parts ! 0)) (\<lambda>n0.
        and_then (py_assert (n0 \<ge> 0) ''DSET_IDs not (yet) supported'') (\<lambda>_.
        and_then (floats3 parts) (\<lambda>org.
        and_then (if length parts > 4 then py_int (parts ! 4) else Inr 1) (\<lambda>nval.
        and_then (read_axis r3) (\<lambda>((nx, vx), r4).
        and_then (read_axis r4) (\<lambda>((ny, vy), r5).
        and_then (read_axis r5) (\<lambda>((nz, vz), r6).
        and_then (read_atoms (nat \<bar>n0\<bar>) r6) (\<lambda>(ats, r7).
          Inr (\<lparr>comment1 = c1, comment2 = c2, origin = org,
                 data_points_per_grid_point = nval,
                 x_grid_points = nx, x_axis = vx,
                 y_grid_points = ny, y_axis = vy,
                 z_grid_points = nz, z_axis = vz,
                 atoms = ats, data = []\<rparr>, r7)))))))))))"

text \<open>Lines 87 and 89: the rest of the text is read by \<^verbatim>\<open>np.fromstring\<close>, and the
  number of values is compared with the product of the four counts.\<close>

definition load_from :: "string \<Rightarrow> error + CubeFile" where
  "load_from inp =
     and_then (load_header inp) (\<lambda>(h, rest).
     and_then (np_fromstring rest) (\<lambda>vs.
     and_then (py_assert (int (length vs) =
                 x_grid_points h * y_grid_points h * z_grid_points h
                   * data_points_per_grid_point h) []) (\<lambda>_.
       Inr (h\<lparr>data := vs\<rparr>))))"



section \<open>Notions used in the statements\<close>


text \<open>The combined sum of all data values greater than or equal to \<open>w\<close>.\<close>

definition sum_ge :: "real list \<Rightarrow> real \<Rightarrow> real" where
  "sum_ge d w = sum_list (filter (\<lambda>x. w \<le> x) d)"

text \<open>The product that line 89 of the source compares with the number of values.\<close>

definition point_product :: "CubeFile \<Rightarrow> int" where
  "point_product c =
     x_grid_points c * y_grid_points c * z_grid_points c * data_points_per_grid_point c"

text \<open>The third line of the input, and the message of the assertion on its first field.\<close>

definition grid_definition_line :: "string \<Rightarrow> string" where
  "grid_definition_line inp = fst (readline (snd (readline (snd (readline inp)))))"

definition dset_message :: string where
  "dset_message = ''DSET_IDs not (yet) supported''"

text \<open>
  The walk as the specification words it: the values sorted and taken from the largest
  to the smallest, a running sum that starts at \<open>cur\<close>, and the first value at which
  the running sum reaches or exceeds the target \<open>t\<close>.
\<close>

definition descending :: "real list \<Rightarrow> real list" where
  "descending d = rev (sort d)"

fun first_reach :: "real list \<Rightarrow> real \<Rightarrow> real \<Rightarrow> real option" where
  "first_reach [] cur t = None"
| "first_reach (x # xs) cur t =
     (if cur + x \<ge> t then Some x else first_reach xs (cur + x) t)"

subsection \<open>Concrete inputs\<close>

text \<open>
  Cube files as texts, line by line, and the objects expected from them. All have two
  comment lines, no atoms, the origin zero, one point along x and along y, and the unit
  vectors as axes; \<open>grid_of nval nz vs\<close> is such an object with \<open>nval\<close> values per point,
  \<open>nz\<close> points along z and the data \<open>vs\<close>.
\<close>

definition text_of_lines :: "string list \<Rightarrow> string" where
  "text_of_lines ls = concat (map (\<lambda>l. l @ [CHR 0x0A]) ls)"

definition grid_of :: "int \<Rightarrow> int \<Rightarrow> real list \<Rightarrow> CubeFile" where
  "grid_of nval nz vs =
     \<lparr>comment1 = ''cube'' @ [CHR 0x0A], comment2 = ''file'' @ [CHR 0x0A],
      origin = (0, 0, 0), data_points_per_grid_point = nval,
      x_grid_points = 1, x_axis = (1, 0, 0),
      y_grid_points = 1, y_axis = (0, 1, 0),
      z_grid_points = nz, z_axis = (0, 0, 1),
      atoms = [], data = vs\<rparr>"

text \<open>The 1x1x2 grid with the data 1.0 and 3.0.\<close>

definition scenario_text :: string where
  "scenario_text = text_of_lines
     [''cube'', ''file'', ''0 0.0 0.0 0.0'',
      ''1 1.0 0.0 0.0'', ''1 0.0 1.0 0.0'', ''2 0.0 0.0 1.0'',
      ''1.0 3.0'']"

definition scenario_grid :: CubeFile where
  "scenario_grid = grid_of 1 2 [1, 3]"


definition mixed_grid :: CubeFile where
  "mixed_grid = grid_of 1 3 [5, 3, - 20]"

text \<open>A file that declares zero values per grid point and has no data.\<close>

definition empty_text :: string where
  "empty_text = text_of_lines
     [''cube'', ''file'', ''0 0.0 0.0 0.0 0'',
      ''1 1.0 0.0 0.0'', ''1 0.0 1.0 0.0'', ''2 0.0 0.0 1.0'']"

definition empty_grid :: CubeFile where
  "empty_grid = grid_of 0 2 []"




text \<open>Files whose grid-definition line starts with \<^verbatim>\<open>-3\<close>: one with three fields on that
  line, one with four fields and nothing of a cube file after it.\<close>

definition short_text :: string where
  "short_text = text_of_lines [''cube'', ''file'', ''-3 0.0 0.0'']"

definition dset_text :: string where
  "dset_text = text_of_lines [''cube'', ''file'', ''-3 0.0 0.0 0.0'', ''not a cube file'']"

section \<open>The threshold loop\<close>

lemma threshold_loop_values:
  "threshold_loop d idx cur t = first_reach (map ((!) d) idx) cur t"
  by (induction idx arbitrary: cur) (simp_all add: Let_def)

lemma map_sort_key: "map f (sort_key f xs) = sort (map f xs)"
proof -
  have "mset (map f (sort_key f xs)) = mset (map f xs)"
    by (metis mset_map mset_sort)
  then show ?thesis
    by (metis properties_for_sort sorted_sort_key)
qed

lemma map_argsort: "map ((!) d) (argsort d) = sort d"
  by (simp add: argsort_def map_sort_key map_nth)

lemma argsort_Nil: "argsort d = [] \<longleftrightarrow> d = []"
proof -
  have "length (argsort d) = length d"
    by (simp add: argsort_def)
  then show ?thesis by (metis length_0_conv)
qed

lemma rev_argsort_values: "map ((!) d) (rev (argsort d)) = descending d"
  by (simp add: descending_def map_argsort flip: rev_map)

lemma last_argsort: "d \<noteq> [] \<Longrightarrow> d ! last (argsort d) = hd (descending d)"
  by (metis argsort_Nil descending_def hd_rev last_map map_argsort)

lemma sorted_descending: "sorted_wrt (\<ge>) (descending d)"
  by (simp add: descending_def sorted_wrt_rev) 

lemma set_descending: "set (descending d) = set d"
  by (simp add: descending_def)


lemma sum_ge_descending: "sum_ge (descending d) w = sum_ge d w"
proof -
  have "mset (filter (\<lambda>x. w \<le> x) (descending d)) = mset (filter (\<lambda>x. w \<le> x) d)"
    by (simp add: descending_def)
  then show ?thesis
    unfolding sum_ge_def by (metis sum_mset_sum_list)
qed

lemma hd_descending: "d \<noteq> [] \<Longrightarrow> hd (descending d) = Max (set d)"
proof -
  assume d: "d \<noteq> []"
  then have "set (descending d) \<noteq> {}"
    by (simp add: set_descending)
  then obtain x xs where ys: "descending d = x # xs"
    by (cases "descending d") auto
  have "\<forall>y\<in>set xs. y \<le> x"
    using sorted_descending[of d] by (simp add: ys)
  then have "Max (set (x # xs)) = x"
    by (intro Max_eqI) auto
  then show ?thesis
    by (metis ys set_descending list.sel(1))
qed

lemma np_max_Max: "d \<noteq> [] \<Longrightarrow> np_max d = Inr (Max (set d))"
  by (cases d) (simp_all add: np_max_def Max.set_eq_fold [symmetric])

lemma np_min_Min: "d \<noteq> [] \<Longrightarrow> np_min d = Inr (Min (set d))"
  by (cases d) (simp_all add: np_min_def Min.set_eq_fold [symmetric])

lemma first_reach_mem: "first_reach ys cur t = Some v \<Longrightarrow> v \<in> set ys"
  by (induction ys arbitrary: cur) (auto split: if_splits)

lemma first_reach_pos: "first_reach ys cur t = Some v \<Longrightarrow> cur < t \<Longrightarrow> 0 < v"
  by (induction ys arbitrary: cur) (auto split: if_splits)

lemma first_reach_hd_or_pos: "first_reach (x # xs) cur t = Some v \<Longrightarrow> v = x \<or> 0 < v"
  by (auto split: if_splits dest: first_reach_pos)

lemma sum_ge_Cons_top: "u \<le> x \<Longrightarrow> sum_ge (x # xs) u = x + sum_ge xs u"
  by (simp add: sum_ge_def)

lemma sum_ge_absent: "\<forall>y\<in>set xs. y \<le> u \<Longrightarrow> u \<notin> set xs \<Longrightarrow> sum_ge xs u = 0"
proof -
  assume a: "\<forall>y\<in>set xs. y \<le> u" "u \<notin> set xs"
  have "filter (\<lambda>x. u \<le> x) xs = []"
    using a by (auto simp: filter_empty_conv)
  then show ?thesis by (simp add: sum_ge_def)
qed

lemma sum_ge_nonneg: "0 \<le> v \<Longrightarrow> 0 \<le> sum_ge xs v"
  unfolding sum_ge_def by (rule sum_list_nonneg) auto

lemma first_reach_above:
  "sorted_wrt (\<ge>) ys \<Longrightarrow> u \<in> set ys \<Longrightarrow>
   first_reach ys cur t = None \<or> (\<exists>v. first_reach ys cur t = Some v \<and> v < u) \<Longrightarrow>
   cur + sum_ge ys u < t"
proof (induction ys arbitrary: cur)
  case Nil
  then show ?case by simp
next
  case (Cons x xs)
  have ux: "u \<le> x" using Cons.prems(1,2) by auto
  have nothere: "\<not> t \<le> cur + x"
    using Cons.prems(3) ux by (auto split: if_splits)
  then have rest: "first_reach xs (cur + x) t = None \<or>
      (\<exists>v. first_reach xs (cur + x) t = Some v \<and> v < u)"
    using Cons.prems(3) by simp
  show ?case
  proof (cases "u \<in> set xs")
    case True
    then have "cur + x + sum_ge xs u < t"
      using Cons.IH[of "cur + x"] Cons.prems(1) rest by simp
    then show ?thesis using ux by (simp add: sum_ge_Cons_top)
  next
    case False
    then have "u = x" using Cons.prems(2) by simp
    moreover have "sum_ge xs u = 0"
      using False Cons.prems(1) \<open>u = x\<close> by (intro sum_ge_absent) auto
    ultimately show ?thesis using nothere by (simp add: sum_ge_Cons_top)
  qed
qed

lemma first_reach_at:
  "sorted_wrt (\<ge>) ys \<Longrightarrow> first_reach ys cur t = Some v \<Longrightarrow> 0 \<le> v \<Longrightarrow>
   t \<le> cur + sum_ge ys v"
proof (induction ys arbitrary: cur)
  case Nil
  then show ?case by simp
next
  case (Cons x xs)
  show ?case
  proof (cases "t \<le> cur + x")
    case True
    then have "v = x" using Cons.prems(2) by simp
    then show ?thesis
      using True sum_ge_nonneg[of v xs] Cons.prems(3) by (simp add: sum_ge_Cons_top)
  next
    case False
    then have r: "first_reach xs (cur + x) t = Some v" using Cons.prems(2) by simp
    then have "v \<in> set xs" by (rule first_reach_mem)
    then have "v \<le> x" using Cons.prems(1) by auto
    then show ?thesis
      using Cons.IH[OF _ r Cons.prems(3)] Cons.prems(1) by (simp add: sum_ge_Cons_top)
  qed
qed



lemma iso_empty:
  "p < 100 \<Longrightarrow> data c = [] \<Longrightarrow> isosurface_threshold_value c p = Inl IndexError"
  by (simp add: isosurface_threshold_value_def argsort_def)

lemma iso_nonempty:
  assumes "p < 100" "data c \<noteq> []"
  shows "isosurface_threshold_value c p =
     Inr (case first_reach (descending (data c)) 0 (summed_data c * p / 100) of
            Some v \<Rightarrow> v | None \<Rightarrow> Max (set (data c)))"
  using assms
  by (simp add: isosurface_threshold_value_def threshold_loop_values rev_argsort_values
      argsort_Nil last_argsort hd_descending Let_def split: option.split)

lemma first_reach_head:
  "first_reach ys 0 t = Some v \<Longrightarrow> ys \<noteq> [] \<Longrightarrow> v = hd ys \<or> 0 < v"
  by (cases ys) (auto split: if_splits dest: first_reach_pos)

lemma sum_ge_anti_nonpos:
  "\<forall>x\<in>set xs. x \<le> 0 \<Longrightarrow> w \<le> v \<Longrightarrow> sum_ge xs w \<le> sum_ge xs v"
  by (induction xs) (auto simp: sum_ge_def)



lemma target_nonpos:
  fixes T p :: real
  shows "T \<le> 0 \<Longrightarrow> 0 \<le> p \<Longrightarrow> T * p / 100 \<le> 0"
  by (simp add: mult_nonpos_nonneg)


lemma iso_nonpositive_sum:
  assumes "data c \<noteq> []" "summed_data c \<le> 0" "0 \<le> p" "p < 100"
  shows "isosurface_threshold_value c p = Inr (Max (set (data c)))"
proof -
  let ?ys = "descending (data c)" and ?t = "summed_data c * p / 100"
  have t: "?t \<le> 0" using assms(2,3) by (rule target_nonpos)
  have hd: "hd ?ys = Max (set (data c))" using assms(1) by (rule hd_descending)
  have ne: "?ys \<noteq> []" using assms(1) by (metis set_descending set_empty)
  show ?thesis
  proof (cases "first_reach ?ys 0 ?t")
    case None
    then show ?thesis using assms by (simp add: iso_nonempty)
  next
    case (Some v)
    have "v = hd ?ys"
    proof (rule ccontr)
      assume n: "v \<noteq> hd ?ys"
      then have "0 < v" using first_reach_head[OF Some ne] by simp
      moreover have "v \<le> Max (set (data c))"
        using first_reach_mem[OF Some] by (simp add: set_descending)
      ultimately have "?t \<le> 0 + hd ?ys" using t hd by linarith
      then have "first_reach ?ys 0 ?t = Some (hd ?ys)"
        using ne by (cases ?ys) auto
      then show False using Some n by simp
    qed
    then show ?thesis using assms Some hd by (simp add: iso_nonempty)
  qed
qed

lemma iso_largest:
  assumes "p < 100" "data c \<noteq> []"
  defines "t \<equiv> summed_data c * p / 100"
  shows "\<exists>v. isosurface_threshold_value c p = Inr v \<and> v \<in> set (data c) \<and>
           (if (\<exists>w\<in>set (data c). t \<le> sum_ge (data c) w)
            then t \<le> sum_ge (data c) v \<and> (\<forall>w\<in>set (data c). t \<le> sum_ge (data c) w \<longrightarrow> w \<le> v)
            else v = Max (set (data c)))"
proof -
  let ?d = "data c"
  let ?ys = "descending ?d"
  have srt: "sorted_wrt (\<ge>) ?ys" by (rule sorted_descending)
  have ne: "?ys \<noteq> []" using assms(2) by (metis set_descending set_empty)
  have hd: "hd ?ys = Max (set ?d)" using assms(2) by (rule hd_descending)
  have Maxin: "Max (set ?d) \<in> set ?d" using assms(2) by (intro Max_in) auto
  show ?thesis
  proof (cases "first_reach ?ys 0 t")
    case None
    have "\<forall>u\<in>set ?d. sum_ge ?d u < t"
    proof
      fix u assume "u \<in> set ?d"
      then have "0 + sum_ge ?ys u < t"
        using first_reach_above[OF srt, of u 0 t] None by (simp add: set_descending)
      then show "sum_ge ?d u < t" by (simp add: sum_ge_descending)
    qed
    then have no: "\<not> (\<exists>w\<in>set ?d. t \<le> sum_ge ?d w)" by (auto simp: not_le)
    have "isosurface_threshold_value c p = Inr (Max (set ?d))"
      using assms(1,2) None by (simp add: iso_nonempty t_def)
    then show ?thesis using no Maxin by simp
  next
    case (Some v)
    have res: "isosurface_threshold_value c p = Inr v"
      using assms(1,2) Some by (simp add: iso_nonempty t_def)
    have vin: "v \<in> set ?d" using first_reach_mem[OF Some] by (simp add: set_descending)
    have above: "w \<le> v" if "w \<in> set ?d" "t \<le> sum_ge ?d w" for w
    proof (rule ccontr)
      assume "\<not> w \<le> v"
      then have "0 + sum_ge ?ys w < t"
        using first_reach_above[OF srt, of w 0 t] Some that(1) by (simp add: set_descending)
      then show False using that(2) by (simp add: sum_ge_descending)
    qed
    have at_nonneg: "t \<le> sum_ge ?d v" if "0 \<le> v"
      using first_reach_at[OF srt Some that] by (simp add: sum_ge_descending)
    show ?thesis
    proof (cases "\<exists>w\<in>set ?d. t \<le> sum_ge ?d w")
      case True
      then obtain w where w: "w \<in> set ?d" "t \<le> sum_ge ?d w" by blast
      have "t \<le> sum_ge ?d v"
      proof (cases "0 \<le> v")
        case True
        then show ?thesis by (rule at_nonneg)
      next
        case False
        then have "v = Max (set ?d)" using first_reach_head[OF Some ne] hd by simp
        then have vmax: "v = Max (set ?d)" .
        have "\<forall>x\<in>set ?d. x \<le> 0"
        proof
          fix x assume "x \<in> set ?d"
          then have "x \<le> Max (set ?d)" by (intro Max_ge) auto
          then show "x \<le> 0" using False vmax by linarith
        qed
        then have "sum_ge ?d w \<le> sum_ge ?d v"
          using above[OF w] by (rule sum_ge_anti_nonpos)
        then show ?thesis using w(2) by simp
      qed
      then show ?thesis using res vin True above by auto
    next
      case False
      have "\<not> 0 < v" using at_nonneg vin False by force
      then have "v = Max (set ?d)" using first_reach_head[OF Some ne] hd by simp
      then show ?thesis using res vin False by simp
    qed
  qed
qed



section \<open>The errors of the parser\<close>

lemma and_then_Inl_iff:
  "and_then m f = Inl e \<longleftrightarrow> m = Inl e \<or> (\<exists>x. m = Inr x \<and> f x = Inl e)"
  by (cases m) (simp_all add: and_then_def)

lemma and_then_Inr_iff:
  "and_then m f = Inr y \<longleftrightarrow> (\<exists>x. m = Inr x \<and> f x = Inr y)"
  by (cases m) (simp_all add: and_then_def)

lemma py_assert_Inl_iff: "py_assert b msg = Inl e \<longleftrightarrow> \<not> b \<and> e = AssertionError msg"
  by (auto simp: py_assert_def)

lemma py_assert_Inr_iff: "py_assert b msg = Inr u \<longleftrightarrow> b"
  by (auto simp: py_assert_def)

lemma py_int_error: "py_int s = Inl e \<Longrightarrow> e = ValueError"
  by (auto simp: py_int_def split: prod.splits option.splits)

lemma py_float_error: "py_float s = Inl e \<Longrightarrow> e = ValueError \<or> e = NonFinite"
  by (auto simp: py_float_def split: prod.splits option.splits if_splits)

lemma floats3_error: "floats3 parts = Inl e \<Longrightarrow> e = ValueError \<or> e = NonFinite"
  by (auto simp: floats3_def and_then_Inl_iff dest: py_float_error)

lemma read_axis_error:
  "read_axis inp = Inl e \<Longrightarrow> e = AssertionError [] \<or> e = ValueError \<or> e = NonFinite"
  by (auto simp: read_axis_def Let_def and_then_Inl_iff py_assert_Inl_iff
      split: prod.splits dest: py_int_error floats3_error)

lemma read_atoms_error:
  "read_atoms n inp = Inl e \<Longrightarrow> e = AssertionError [] \<or> e = ValueError \<or> e = NonFinite"
proof (induction n arbitrary: inp)
  case 0
  then show ?case by simp
next
  case (Suc n)
  then show ?case
    by (auto simp: Let_def and_then_Inl_iff py_assert_Inl_iff
        split: prod.splits dest: py_int_error py_float_error)
qed

lemma array_from_text_error: "array_from_text s = Inl e \<Longrightarrow> e = NonFinite"
proof (induction s rule: array_from_text.induct)
  case (1 s)
  from "1.prems" show ?case
    by (subst (asm) array_from_text.simps)
       (auto split: scan.splits option.splits sum.splits dest: "1.IH")
qed

lemma np_fromstring_error: "np_fromstring s = Inl e \<Longrightarrow> e = NonFinite"
  by (simp add: np_fromstring_def array_from_text_error)

lemma load_header_dset:
  "load_header inp = Inl (AssertionError dset_message) \<longleftrightarrow>
     (length (py_split (grid_definition_line inp)) = 4 \<or>
      length (py_split (grid_definition_line inp)) = 5) \<and>
     (\<exists>n<0. py_int (py_split (grid_definition_line inp) ! 0) = Inr n)"
proof -
  obtain c1 r1 where l1: "readline inp = (c1, r1)" by (cases "readline inp")
  obtain c2 r2 where l2: "readline r1 = (c2, r2)" by (cases "readline r1")
  obtain line r3 where l3: "readline r2 = (line, r3)" by (cases "readline r2")
  have g: "grid_definition_line inp = line"
    by (simp add: grid_definition_line_def l1 l2 l3)
  let ?parts = "py_split line"
  have msg: "dset_message \<noteq> []" by (simp add: dset_message_def)
  show ?thesis
  proof (cases "length ?parts = 4 \<or> length ?parts = 5")
    case False
    then show ?thesis
      using msg by (simp add: load_header_def l1 l2 l3 g Let_def py_assert_def and_then_def)
  next
    case len: True
    show ?thesis
    proof (cases "py_int (?parts ! 0)")
      case (Inl e)
      then have "e = ValueError" by (rule py_int_error)
      then show ?thesis
        using len Inl by (simp add: load_header_def l1 l2 l3 g Let_def py_assert_def and_then_def)
    next
      case (Inr n0)
      show ?thesis
      proof (cases "n0 < 0")
        case True
        then show ?thesis
          using len Inr
          by (simp add: load_header_def l1 l2 l3 g Let_def py_assert_def and_then_def
              dset_message_def)
      next
        case False
        have "load_header inp \<noteq> Inl (AssertionError dset_message)"
          using len Inr False msg
          by (auto simp: load_header_def l1 l2 l3 Let_def py_assert_def and_then_Inl_iff
              split: prod.splits if_splits
              dest!: py_int_error floats3_error read_axis_error read_atoms_error)
        then show ?thesis using Inr False by (simp add: g)
      qed
    qed
  qed
qed

lemma load_from_dset:
  "load_from inp = Inl (AssertionError dset_message) \<longleftrightarrow>
   load_header inp = Inl (AssertionError dset_message)"
  using np_fromstring_error
  by (auto simp: load_from_def and_then_Inl_iff py_assert_Inl_iff dset_message_def
      split: prod.splits)

lemma load_from_Inr_iff:
  "load_from inp = Inr c \<longleftrightarrow>
     (\<exists>h rest vs. load_header inp = Inr (h, rest) \<and> np_fromstring rest = Inr vs \<and>
        int (length vs) = point_product h \<and> c = h\<lparr>data := vs\<rparr>)"
  by (auto simp: load_from_def and_then_Inr_iff py_assert_Inr_iff point_product_def
      split: prod.splits)

lemma load_from_mismatch:
  "load_header inp = Inr (h, rest) \<Longrightarrow> np_fromstring rest = Inr vs \<Longrightarrow>
   int (length vs) \<noteq> point_product h \<Longrightarrow> load_from inp = Inl (AssertionError [])"
  by (simp add: load_from_def and_then_def py_assert_def point_product_def)

section \<open>The concrete inputs, evaluated\<close>

lemma load_scenario: "load_from scenario_text = Inr scenario_grid"
  by code_simp


lemma load_empty: "load_from empty_text = Inr empty_grid"
  by code_simp




lemma iso_scenario_50: "isosurface_threshold_value scenario_grid 50 = Inr 3"
  by code_simp

lemma iso_scenario_90: "isosurface_threshold_value scenario_grid 90 = Inr 1"
  by code_simp

lemma iso_scenario_100: "isosurface_threshold_value scenario_grid 100 = Inr 0"
  by code_simp



lemma iso_mixed_50: "isosurface_threshold_value mixed_grid 50 = Inr 5"
  by code_simp

lemma iso_empty_90: "isosurface_threshold_value empty_grid 90 = Inl IndexError"
  by code_simp

lemma min_empty: "min_value empty_grid = Inl ValueError"
  by code_simp

lemma volume_scenario: "volume scenario_grid = 1"
  by (simp add: volume_def norm3_def scenario_grid_def grid_of_def)

lemma short_parts: "py_split (grid_definition_line short_text) = [''-3'', ''0.0'', ''0.0'']"
  by code_simp

lemma load_short: "load_from short_text = Inl (AssertionError [])"
  by code_simp

lemma dset_parts: "py_split (grid_definition_line dset_text) = [''-3'', ''0.0'', ''0.0'', ''0.0'']"
  by code_simp

lemma int_m3: "py_int ''-3'' = Inr (- 3)"
  by code_simp

lemma analyzers_defined:
  assumes "data c \<noteq> []"
  shows "(\<exists>a. min_value c = Inr a) \<and> (\<exists>a. abs_min_value c = Inr a) \<and>
         (\<exists>a. max_value c = Inr a) \<and> (\<exists>a. abs_max_value c = Inr a) \<and>
         (\<forall>p. \<exists>v. isosurface_threshold_value c p = Inr v)"
proof -
  have "\<exists>v. isosurface_threshold_value c p = Inr v" for p
  proof (cases "p < 100")
    case True
    then show ?thesis using assms by (simp add: iso_nonempty)
  next
    case False
    then show ?thesis by (simp add: isosurface_threshold_value_def)
  qed
  moreover have "map abs (data c) \<noteq> []" using assms by simp
  ultimately show ?thesis
    using assms
    by (simp add: min_value_def abs_min_value_def max_value_def abs_max_value_def
        np_min_Min np_max_Max)
qed





lemma point_product_update: "point_product (h\<lparr>data := vs\<rparr>) = point_product h"
  by (simp add: point_product_def)

section \<open>Results\<close>

subsection \<open>C1\<close>




subsection \<open>C2\<close>

text \<open>
  Claim C2. \<open>abs_summed_data\<close> returns the same value as \<open>summed_data\<close> on every grid: the
  signed sum of the data values, not the sum of their absolute values (on the data
  5, 3, -20 it returns -12, and the absolute values sum to 28).
\<close>

theorem abs_summed_data_is_signed_sum:
  "abs_summed_data c = summed_data c \<and> abs_summed_data c = sum_list (data c) \<and>
   abs_summed_data mixed_grid = - 12 \<and> sum_list (map abs (data mixed_grid)) = 28"
  by (simp add: abs_summed_data_def summed_data_def mixed_grid_def grid_of_def)

subsection \<open>C3\<close>

text \<open>
  Claim C3, as amended. The data of a grid produced by a successful parse has as many
  values as the product of the three point counts and the number of values per point.
  So the data is not empty exactly when this product is positive, and then \<open>min_value\<close>,
  \<open>abs_min_value\<close>, \<open>max_value\<close>, \<open>abs_max_value\<close> and \<open>isosurface_threshold_value\<close>
  return a value. (\<open>summed_data\<close>, \<open>abs_summed_data\<close>, \<open>volume\<close> and \<open>integrate\<close> have
  no error in the model at all.)
\<close>

theorem parsed_data_length:
  assumes "load_from inp = Inr c"
  shows "int (length (data c)) = point_product c \<and>
         (data c \<noteq> [] \<longleftrightarrow> 0 < point_product c) \<and>
         (data c \<noteq> [] \<longrightarrow>
            (\<exists>a. min_value c = Inr a) \<and> (\<exists>a. abs_min_value c = Inr a) \<and>
            (\<exists>a. max_value c = Inr a) \<and> (\<exists>a. abs_max_value c = Inr a) \<and>
            (\<forall>p. \<exists>v. isosurface_threshold_value c p = Inr v))"
proof -
  obtain h rest vs where "int (length vs) = point_product h" "c = h\<lparr>data := vs\<rparr>"
    using assms by (auto simp: load_from_Inr_iff)
  then have len: "int (length (data c)) = point_product c"
    by (simp add: point_product_update)
  then have "data c \<noteq> [] \<longleftrightarrow> 0 < point_product c"
    by (metis length_greater_0_conv of_nat_0_less_iff)
  then show ?thesis using len analyzers_defined[of c] by blast
qed

text \<open>The theorem at the 1x1x2 file.\<close>

theorem parsed_data_length_witness:
  "load_from scenario_text = Inr scenario_grid \<and>
   int (length (data scenario_grid)) = point_product scenario_grid \<and>
   0 < point_product scenario_grid \<and>
   (\<exists>a. min_value scenario_grid = Inr a)"
proof -
  have "data scenario_grid \<noteq> []" by (simp add: scenario_grid_def grid_of_def)
  then show ?thesis
    using load_scenario parsed_data_length [OF load_scenario] by blast
qed

text \<open>
  The parser does not require the counts to be positive: a file that declares zero values
  per grid point and ends after its header is parsed into a grid without data, on which
  \<open>min_value\<close> raises \<open>ValueError\<close> and \<open>isosurface_threshold_value\<close> raises
  \<open>IndexError\<close>.
\<close>

theorem nonempty_data_counterexample:
  "load_from empty_text = Inr empty_grid \<and>
   data_points_per_grid_point empty_grid = 0 \<and>
   data empty_grid = [] \<and>
   min_value empty_grid = Inl ValueError \<and>
   isosurface_threshold_value empty_grid 90 = Inl IndexError"
  using load_empty min_empty iso_empty_90 by (simp add: empty_grid_def grid_of_def)

subsection \<open>C4\<close>


subsection \<open>C5\<close>




subsection \<open>C6\<close>

text \<open>
  Claim C6. For a coverage below 100, every value that \<open>isosurface_threshold_value\<close>
  returns is an element of the data, and on a grid with data it returns a value.
\<close>

theorem threshold_membership:
  assumes "coverage_percent < 100"
  shows "(data c \<noteq> [] \<longrightarrow> (\<exists>v. isosurface_threshold_value c coverage_percent = Inr v)) \<and>
         (\<forall>v. isosurface_threshold_value c coverage_percent = Inr v \<longrightarrow> v \<in> set (data c))"
proof (cases "data c = []")
  case True
  then show ?thesis using assms by (simp add: iso_empty)
next
  case False
  then show ?thesis using iso_largest[OF assms False] by auto
qed

text \<open>The theorem at the 1x1x2 grid and the coverage 50.\<close>

theorem threshold_membership_witness:
  "(50::real) < 100 \<and>
   (\<exists>v. isosurface_threshold_value scenario_grid 50 = Inr v \<and> v \<in> set (data scenario_grid))"
proof -
  have a: "(50::real) < 100" by simp
  have b: "data scenario_grid \<noteq> []" by (simp add: scenario_grid_def grid_of_def)
  show ?thesis
    using a b threshold_membership [OF a, of scenario_grid] by blast
qed

subsection \<open>C7\<close>



subsection \<open>C8\<close>

text \<open>
  Claim C8, as amended. \<open>load_from\<close> fails with the \<open>AssertionError\<close> that carries the
  message \<^verbatim>\<open>DSET_IDs not (yet) supported\<close> if and only if the grid-definition line has four
  or five fields and \<^verbatim>\<open>int()\<close> reads a negative number from the first one. What follows
  in the file plays no part, and no other failure of the parser carries this error.
\<close>

theorem dset_error_iff:
  "dset_message = ''DSET_IDs not (yet) supported'' \<and>
   (load_from inp = Inl (AssertionError dset_message) \<longleftrightarrow>
      (length (py_split (grid_definition_line inp)) = 4 \<or>
       length (py_split (grid_definition_line inp)) = 5) \<and>
      (\<exists>n<0. py_int (py_split (grid_definition_line inp) ! 0) = Inr n))"
  by (simp add: load_from_dset load_header_dset) (simp add: dset_message_def)

text \<open>The theorem at a file with the grid-definition line \<^verbatim>\<open>-3 0.0 0.0 0.0\<close>.\<close>

theorem dset_error_iff_witness:
  "py_split (grid_definition_line dset_text) = [''-3'', ''0.0'', ''0.0'', ''0.0''] \<and>
   py_int ''-3'' = Inr (- 3) \<and>
   load_from dset_text = Inl (AssertionError ''DSET_IDs not (yet) supported'')"
proof -
  have "\<exists>n<0. py_int (py_split (grid_definition_line dset_text) ! 0) = Inr n"
    using int_m3 by (simp add: dset_parts)
  moreover have "length (py_split (grid_definition_line dset_text)) = 4"
    by (simp add: dset_parts)
  ultimately have "load_from dset_text = Inl (AssertionError dset_message)"
    using dset_error_iff [of dset_text] by blast
  then show ?thesis
    using dset_parts int_m3 by (simp add: dset_message_def)
qed

text \<open>
  The number of fields is checked first: with the grid-definition line \<^verbatim>\<open>-3 0.0 0.0\<close>
  the first field is negative and the parse fails with the \<open>AssertionError\<close> without a
  message.
\<close>

theorem negative_count_counterexample:
  "py_split (grid_definition_line short_text) = [''-3'', ''0.0'', ''0.0''] \<and>
   py_int ''-3'' = Inr (- 3) \<and>
   load_from short_text = Inl (AssertionError []) \<and>
   AssertionError [] \<noteq> AssertionError dset_message"
  using short_parts int_m3 load_short by (simp add: dset_message_def)

subsection \<open>C9\<close>

text \<open>
  Claim C9. The text of the 1x1x2 cube file (data 1.0 and 3.0, one value per point, origin
  zero, axis vectors of length 1, no atoms) is parsed into the grid \<open>scenario_grid\<close>, on
  which the minimum is 1, the maximum 3, the sum 4, the volume 1, the integral 4, the
  threshold for the coverage 50 is 3 and the threshold for the coverage 100 is 0.
\<close>

theorem concrete_scenario:
  "load_from scenario_text = Inr scenario_grid \<and>
   x_grid_points scenario_grid = 1 \<and> y_grid_points scenario_grid = 1 \<and>
   z_grid_points scenario_grid = 2 \<and> data scenario_grid = [1, 3] \<and>
   data_points_per_grid_point scenario_grid = 1 \<and> origin scenario_grid = (0, 0, 0) \<and>
   norm3 (x_axis scenario_grid) = 1 \<and> norm3 (y_axis scenario_grid) = 1 \<and>
   norm3 (z_axis scenario_grid) = 1 \<and> atoms scenario_grid = [] \<and>
   min_value scenario_grid = Inr 1 \<and>
   max_value scenario_grid = Inr 3 \<and>
   summed_data scenario_grid = 4 \<and>
   volume scenario_grid = 1 \<and>
   integrate scenario_grid = 4 \<and>
   isosurface_threshold_value scenario_grid 50 = Inr 3 \<and>
   isosurface_threshold_value scenario_grid 100 = Inr 0"
proof -
  have "min_value scenario_grid = Inr 1" "max_value scenario_grid = Inr 3"
    by (simp_all add: min_value_def max_value_def np_min_def np_max_def scenario_grid_def
        grid_of_def)
  moreover have s: "summed_data scenario_grid = 4"
    by (simp add: summed_data_def scenario_grid_def grid_of_def)
  moreover have "integrate scenario_grid = 4"
    by (simp add: integrate_def s volume_scenario)
  moreover have "norm3 (x_axis scenario_grid) = 1" "norm3 (y_axis scenario_grid) = 1"
    "norm3 (z_axis scenario_grid) = 1"
    by (simp_all add: norm3_def scenario_grid_def grid_of_def)
  ultimately show ?thesis
    using load_scenario volume_scenario iso_scenario_50 iso_scenario_100
    by (simp add: scenario_grid_def grid_of_def)
qed

subsection \<open>C10\<close>

text \<open>
  Claim C10. On a grid with data whose sum is zero or negative, for every coverage in
  [0, 100) \<open>isosurface_threshold_value\<close> returns the value that \<open>max_value\<close> returns.
\<close>

theorem nonpositive_sum_returns_max:
  assumes "data c \<noteq> []" and "summed_data c \<le> 0"
    and "0 \<le> coverage_percent" and "coverage_percent < 100"
  shows "\<exists>m. max_value c = Inr m \<and> isosurface_threshold_value c coverage_percent = Inr m"
  using iso_nonpositive_sum[OF assms] assms(1) by (simp add: max_value_def np_max_Max)

text \<open>The theorem at the data 5, 3, -20 and the coverage 50.\<close>

theorem nonpositive_sum_returns_max_witness:
  "data mixed_grid \<noteq> [] \<and> summed_data mixed_grid \<le> 0 \<and> (0::real) \<le> 50 \<and> (50::real) < 100 \<and>
   (\<exists>m. max_value mixed_grid = Inr m \<and> isosurface_threshold_value mixed_grid 50 = Inr m)"
proof -
  have a: "data mixed_grid \<noteq> []" by (simp add: mixed_grid_def grid_of_def)
  have b: "summed_data mixed_grid \<le> 0"
    by (simp add: summed_data_def mixed_grid_def grid_of_def)
  have c: "(0::real) \<le> 50" and d: "(50::real) < 100" by simp_all
  show ?thesis
    using a b c d nonpositive_sum_returns_max [OF a b c d] by blast
qed

end
